theory Spec2Isabelle
  imports Main "HOL-Library.Word"
begin

unbundle bit_operations_syntax

section \<open>Shellcode-follow option (TinyTracer.cpp)\<close>

text \<open>
  The enum \<^verbatim>\<open>t_shellc_options\<close> is modelled by the integer value of its enumerators, as
  the code itself uses it: \<^verbatim>\<open>ConvertShcOption\<close> compares an \<^verbatim>\<open>int\<close> with
  \<^verbatim>\<open>SHELLC_OPTIONS_COUNT\<close> and casts, and \<^verbatim>\<open>m_FollowShellcode\<close> is tested for being
  non-zero.
\<close>

type_synonym t_shellc_options = int

definition SHELLC_DO_NOT_FOLLOW :: t_shellc_options where
  "SHELLC_DO_NOT_FOLLOW = 0"

definition SHELLC_FOLLOW_FIRST :: t_shellc_options where
  "SHELLC_FOLLOW_FIRST = 1"

definition SHELLC_FOLLOW_RECURSIVE :: t_shellc_options where
  "SHELLC_FOLLOW_RECURSIVE = 2"

definition SHELLC_OPTIONS_COUNT :: t_shellc_options where
  "SHELLC_OPTIONS_COUNT = 3"

definition ConvertShcOption :: "int \<Rightarrow> t_shellc_options" where
  "ConvertShcOption v =
     (if v \<ge> SHELLC_OPTIONS_COUNT then SHELLC_FOLLOW_RECURSIVE else v)"

section \<open>Watch list (FuncWatch.cpp)\<close>

subsection \<open>Entries\<close>

text \<open>
  \<^verbatim>\<open>WFuncInfo\<close> holds the two names and the number of parameters of a watched function.
  The declaration of the struct is in FuncWatch.h; the field \<^verbatim>\<open>paramCount\<close> is taken to
  be a \<^verbatim>\<open>size_t\<close> of a 64-bit build, a natural number up to \<open>SIZE_MAX\<close>.
\<close>

record WFuncInfo =
  dllName :: string
  funcName :: string
  paramCount :: nat

definition SIZE_MAX :: nat where
  "SIZE_MAX = 2 ^ 64 - 1"

text \<open>A default-constructed entry: empty names; \<^verbatim>\<open>load\<close> overwrites all three fields.\<close>

definition WFuncInfo_default :: WFuncInfo where
  "WFuncInfo_default = \<lparr>dllName = [], funcName = [], paramCount = 0\<rparr>"

text \<open>
  Modelled from the spec: \<^verbatim>\<open>WFuncInfo::isValid\<close> is declared in FuncWatch.h. The spec says
  that an entry with an empty module or function name is invalid.
\<close>

definition isValid :: "WFuncInfo \<Rightarrow> bool" where
  "isValid info = (dllName info \<noteq> [] \<and> funcName info \<noteq> [])"

text \<open>
  Modelled from the spec: \<^verbatim>\<open>util::iequals\<close> is defined in Util.cpp. The spec says that
  names are compared case-insensitively with the ASCII ordinal fold, as the sibling
  \<^verbatim>\<open>isStrEqualI\<close> of TinyTracer.cpp does with \<^verbatim>\<open>tolower\<close>.
\<close>

definition tolower_c :: "char \<Rightarrow> char" where
  "tolower_c c =
     (case map_of (zip ''ABCDEFGHIJKLMNOPQRSTUVWXYZ'' ''abcdefghijklmnopqrstuvwxyz'') c of
        Some l \<Rightarrow> l
      | None \<Rightarrow> c)"

definition iequals :: "string \<Rightarrow> string \<Rightarrow> bool" where
  "iequals a b = (map tolower_c a = map tolower_c b)"

subsection \<open>Splitting a line\<close>

text \<open>
  \<^verbatim>\<open>getline(f, s, delimiter)\<close> on a string stream: it fails when nothing is left to read;
  otherwise it delivers the characters before the next delimiter and consumes the
  delimiter. The stream is the text still to be read.
\<close>

definition getline_str :: "char \<Rightarrow> string \<Rightarrow> (string \<times> string) option" where
  "getline_str d f =
     (if f = [] then None
      else Some (takeWhile (\<lambda>c. c \<noteq> d) f, drop 1 (dropWhile (\<lambda>c. c \<noteq> d) f)))"

lemma getline_str_shorter:
  assumes "getline_str d f = Some (s, f')"
  shows "length f' < length f"
proof -
  from assms have ne: "f \<noteq> []" and f': "f' = drop 1 (dropWhile (\<lambda>c. c \<noteq> d) f)"
    by (auto simp: getline_str_def split: if_splits)
  have "length (dropWhile (\<lambda>c. c \<noteq> d) f) \<le> length f"
    by (rule length_dropWhile_le)
  with ne f' show ?thesis by (cases f) auto
qed

text \<open>The loop \<^verbatim>\<open>while (getline(f, s, delimiter)) args.push_back(s)\<close>.\<close>

function split_loop :: "char \<Rightarrow> string \<Rightarrow> string list \<Rightarrow> string list" where
  "split_loop d f args =
     (case getline_str d f of
        None \<Rightarrow> args
      | Some (s, f') \<Rightarrow> split_loop d f' (args @ [s]))"
  by pat_completeness auto
termination
  by (relation "measure (\<lambda>(d, f, args). length f)") (auto dest: getline_str_shorter)

declare split_loop.simps [simp del]

definition split_list :: "string \<Rightarrow> char \<Rightarrow> string list \<Rightarrow> nat \<times> string list" where
  "split_list sline delimiter args =
     (let args' = split_loop delimiter sline args in (length args', args'))"

subsection \<open>Reading the parameter count\<close>

text \<open>
  \<^verbatim>\<open>ss << std::dec << args[2]; ss >> this->paramCount\<close>: the formatted extraction of an
  unsigned decimal number. It skips leading white space, accepts one sign, and reads the
  longest run of digits. With no digit the extraction fails and stores zero; a value
  beyond \<open>SIZE_MAX\<close> fails and stores \<open>SIZE_MAX\<close>; a minus sign negates modulo
  \<open>2 ^ 64\<close>. The first component of the result is the stream's fail bit, which
  \<^verbatim>\<open>WFuncInfo::load\<close> never looks at.
\<close>

definition isspace_c :: "char \<Rightarrow> bool" where
  "isspace_c c = (c \<in> set [CHR '' '', CHR 0x09, CHR 0x0A, CHR 0x0B, CHR 0x0C, CHR 0x0D])"

definition isdigit_c :: "char \<Rightarrow> bool" where
  "isdigit_c c = (c \<in> set ''0123456789'')"

definition digit_val :: "char \<Rightarrow> nat" where
  "digit_val c = of_char c - 48"

definition dec_value :: "string \<Rightarrow> nat" where
  "dec_value ds = foldl (\<lambda>acc c. 10 * acc + digit_val c) 0 ds"

definition skip_sign :: "string \<Rightarrow> bool \<times> string" where
  "skip_sign t =
     (case t of
        [] \<Rightarrow> (False, [])
      | c # r \<Rightarrow>
          if c = CHR ''-'' then (True, r) else if c = CHR ''+'' then (False, r) else (False, t))"

definition extract_size_t :: "string \<Rightarrow> bool \<times> nat" where
  "extract_size_t s =
     (let (neg, u) = skip_sign (dropWhile isspace_c s);
          ds = takeWhile isdigit_c u
      in if ds = [] then (True, 0)
         else if dec_value ds > SIZE_MAX then (True, SIZE_MAX)
         else if neg then (False, (2 ^ 64 - dec_value ds) mod 2 ^ 64)
         else (False, dec_value ds))"

subsection \<open>The operations of the list\<close>

text \<open>
  Each method that changes its object takes the object and returns it next to the
  result of the call.
\<close>

definition WFuncInfo_load :: "WFuncInfo \<Rightarrow> string \<Rightarrow> char \<Rightarrow> bool \<times> WFuncInfo" where
  "WFuncInfo_load this sline delimiter =
     (let args = snd (split_list sline delimiter [])
      in if length args < 3 then (False, this)
         else (True, this\<lparr>dllName := args ! 0, funcName := args ! 1,
                           paramCount := snd (extract_size_t (args ! 2))\<rparr>))"

definition WFuncInfo_update :: "WFuncInfo \<Rightarrow> WFuncInfo \<Rightarrow> bool \<times> WFuncInfo" where
  "WFuncInfo_update this func_info =
     (if paramCount this < paramCount func_info
      then (True, this\<lparr>paramCount := paramCount func_info\<rparr>)
      else (False, this))"

text \<open>\<^verbatim>\<open>findFunc\<close> returns the position of the first entry with the key, for the pointer.\<close>

fun findFunc :: "WFuncInfo list \<Rightarrow> string \<Rightarrow> string \<Rightarrow> nat option" where
  "findFunc [] dll fn = None"
| "findFunc (info # rest) dll fn =
     (if iequals (dllName info) dll \<and> iequals (funcName info) fn then Some 0
      else map_option Suc (findFunc rest dll fn))"

definition appendFunc :: "WFuncInfo list \<Rightarrow> WFuncInfo \<Rightarrow> bool \<times> WFuncInfo list" where
  "appendFunc funcs func_info =
     (if \<not> isValid func_info then (False, funcs)
      else case findFunc funcs (dllName func_info) (funcName func_info) of
             None \<Rightarrow> (True, funcs @ [func_info])
           | Some i \<Rightarrow> (True, funcs[i := snd (WFuncInfo_update (funcs ! i) func_info)]))"

subsection \<open>Loading the file\<close>

text \<open>
  The input file stream: the text not yet read and the two state bits the loop depends
  on. \<^verbatim>\<open>myfile.getline(line, n)\<close> does nothing but set the fail bit when the stream is
  not good. Otherwise it reads up to the next newline, which it consumes. Reaching the
  end of the text sets the end-of-file bit, and the fail bit too when no character was
  read. When \<open>n - 1\<close> characters are stored and the line goes on, it stops there and sets
  the fail bit, and not the end-of-file bit.
\<close>

record ifstream =
  content :: string
  eofbit :: bool
  failbit :: bool

definition ifstream_open :: "string \<Rightarrow> ifstream" where
  "ifstream_open cs = \<lparr>content = cs, eofbit = False, failbit = False\<rparr>"

definition newline :: char where
  "newline = CHR 0x0A"

definition istream_getline :: "ifstream \<Rightarrow> nat \<Rightarrow> ifstream \<times> string" where
  "istream_getline f n =
     (if eofbit f \<or> failbit f then (f\<lparr>failbit := True\<rparr>, [])
      else
        let body = takeWhile (\<lambda>c. c \<noteq> newline) (content f);
            after = dropWhile (\<lambda>c. c \<noteq> newline) (content f)
        in if length body < n then
             (case after of
                [] \<Rightarrow> (\<lparr>content = [], eofbit = True, failbit = (body = [])\<rparr>, body)
              | _ # r \<Rightarrow> (\<lparr>content = r, eofbit = False, failbit = False\<rparr>, body))
           else (\<lparr>content = drop (n - 1) (content f), eofbit = False, failbit = True\<rparr>,
                 take (n - 1) body))"

text \<open>The buffer is handed to \<^verbatim>\<open>load\<close> as a C string: it ends at the first NUL.\<close>

definition c_str :: "string \<Rightarrow> string" where
  "c_str buf = takeWhile (\<lambda>c. c \<noteq> CHR 0x00) buf"

definition MAX_LINE :: nat where
  "MAX_LINE = 300"

text \<open>The body of the loop of \<^verbatim>\<open>loadList\<close>, on the line just read.\<close>

definition loadList_body :: "WFuncInfo list \<Rightarrow> string \<Rightarrow> WFuncInfo list" where
  "loadList_body funcs line =
     (case WFuncInfo_load WFuncInfo_default (c_str line) (CHR '';'') of
        (True, func_info) \<Rightarrow> snd (appendFunc funcs func_info)
      | (False, _) \<Rightarrow> funcs)"

text \<open>
  The loop \<^verbatim>\<open>while (!myfile.eof())\<close>. Nothing bounds the number of its rounds, so its
  result is optional: \<open>None\<close> stands for a loop that never ends.
\<close>

partial_function (option) loadList_loop ::
    "ifstream \<Rightarrow> WFuncInfo list \<Rightarrow> WFuncInfo list option" where
  "loadList_loop myfile funcs =
     (if eofbit myfile then Some funcs
      else loadList_loop (fst (istream_getline myfile MAX_LINE))
             (loadList_body funcs (snd (istream_getline myfile MAX_LINE))))"

text \<open>
  \<^verbatim>\<open>loadList\<close>: the file is \<open>None\<close> when it cannot be opened, and its text otherwise.
  The result is the returned count and the list.
\<close>

definition loadList :: "string option \<Rightarrow> WFuncInfo list \<Rightarrow> (nat \<times> WFuncInfo list) option" where
  "loadList file funcs =
     (case file of
        None \<Rightarrow> Some (0, funcs)
      | Some cs \<Rightarrow>
          map_option (\<lambda>funcs'. (length funcs', funcs')) (loadList_loop (ifstream_open cs) funcs))"

section \<open>Transitions (TinyTracer.cpp)\<close>

subsection \<open>Modules, sections and the engine\<close>

text \<open>
  \<^verbatim>\<open>ADDRINT\<close> is the pointer-sized unsigned integer of the engine, here of a 64-bit
  target.
\<close>

type_synonym ADDRINT = "64 word"

text \<open>
  Modelled from the spec: the macro \<^verbatim>\<open>UNKNOWN_ADDR\<close> is defined in ProcessInfo.h. The
  spec calls it the sentinel for "none"; it is the all-ones address here.
\<close>

definition UNKNOWN_ADDR :: ADDRINT where
  "UNKNOWN_ADDR = - 1"

text \<open>
  Modelled from the spec: \<^verbatim>\<open>s_module\<close> and the module table are declared in
  ProcessInfo.h. The spec gives a section a name and a half-open range of offsets, and
  a module a base address, a size, its sections and the flag that marks the traced
  module.
\<close>

record s_module =
  name :: string
  startOffset :: ADDRINT
  endOffset :: ADDRINT

record ModuleRecord =
  moduleName :: string
  base :: ADDRINT
  imageSize :: ADDRINT
  sections :: "s_module list"
  isTraced :: bool

text \<open>
  What \<^verbatim>\<open>_SaveTransitions\<close> reads and does not change: the table of the known module
  images, the two queries answered outside the file (\<^verbatim>\<open>get_func_at\<close>, the symbol at an
  address, and \<^verbatim>\<open>GetPageOfAddr\<close>, the page of an address or \<^verbatim>\<open>UNKNOWN_ADDR\<close>), and
  the global \<^verbatim>\<open>m_FollowShellcode\<close>.
\<close>

record tracer_env =
  modules :: "ModuleRecord list"
  get_func_at :: "ADDRINT \<Rightarrow> string"
  GetPageOfAddr :: "ADDRINT \<Rightarrow> ADDRINT"
  m_FollowShellcode :: t_shellc_options

text \<open>
  The records of the trace log, one constructor for each logging call of TinyTracer.cpp,
  with the arguments of the call: \<^verbatim>\<open>logCall\<close> to a module (previous module base,
  previous address, whether it is an offset, module, function), \<^verbatim>\<open>logCall\<close> to a page
  outside every module (previous base, previous address, page, target),
  \<^verbatim>\<open>logNewSectionCalled\<close>, \<^verbatim>\<open>logSectionChange\<close> and \<^verbatim>\<open>logLine\<close>.
\<close>

datatype trace_record =
    LogCall ADDRINT ADDRINT bool string string
  | LogCallShellc ADDRINT ADDRINT ADDRINT ADDRINT
  | LogNewSectionCalled ADDRINT string string
  | LogSectionChange ADDRINT string
  | LogLine string

text \<open>
  What changes: the static \<^verbatim>\<open>lastShellc\<close>, the section cursor of the traced module and
  the log.
\<close>

record tracer_state =
  lastShellc :: ADDRINT
  lastKnownSectionOffset :: ADDRINT
  traceLog :: "trace_record list"

definition log_append :: "trace_record \<Rightarrow> tracer_state \<Rightarrow> tracer_state" where
  "log_append r s = s\<lparr>traceLog := traceLog s @ [r]\<rparr>"

text \<open>The records a step from \<open>s\<close> to \<open>s'\<close> has added to the log.\<close>

definition emitted :: "tracer_state \<Rightarrow> tracer_state \<Rightarrow> trace_record list" where
  "emitted s s' = drop (length (traceLog s)) (traceLog s')"

text \<open>
  Modelled from the spec: \<^verbatim>\<open>IMG_FindByAddress\<close> belongs to the engine. The spec's
  \<open>ModuleOf\<close> resolves the module image that contains an address, or none when the
  address is outside every known image; an image covers \<open>[base, base + size)\<close>.
\<close>

definition inModule :: "ModuleRecord \<Rightarrow> ADDRINT \<Rightarrow> bool" where
  "inModule m a = (unat (base m) \<le> unat a \<and> unat a < unat (base m) + unat (imageSize m))"

definition IMG_FindByAddress :: "tracer_env \<Rightarrow> ADDRINT \<Rightarrow> ModuleRecord option" where
  "IMG_FindByAddress env a = find (\<lambda>m. inModule m a) (modules env)"

text \<open>
  Modelled from the spec: \<^verbatim>\<open>ProcessInfo::isMyAddress\<close>, \<^verbatim>\<open>addr_to_rva\<close>,
  \<^verbatim>\<open>ProcessInfo::getSecByAddr\<close> and \<^verbatim>\<open>ProcessInfo::updateTracedModuleSection\<close> are
  defined in ProcessInfo.h. In the spec they are \<open>isTracedAddress\<close> (the address lies
  in the range of the traced module), \<open>toOffset\<close> (the address relative to the base of
  the traced module, a sentinel outside it), \<open>sectionAt\<close> (the first section whose range
  contains the offset, or none) and \<open>noteExecutionOffset\<close> (when the section of the
  offset differs from the section of the cursor, the cursor moves to the offset and the
  answer is true; otherwise nothing changes and the answer is false).
\<close>

definition tracedModule :: "tracer_env \<Rightarrow> ModuleRecord option" where
  "tracedModule env = find isTraced (modules env)"

definition isMyAddress :: "tracer_env \<Rightarrow> ADDRINT \<Rightarrow> bool" where
  "isMyAddress env a = (case tracedModule env of None \<Rightarrow> False | Some m \<Rightarrow> inModule m a)"

definition addr_to_rva :: "tracer_env \<Rightarrow> ADDRINT \<Rightarrow> ADDRINT" where
  "addr_to_rva env a =
     (case tracedModule env of
        None \<Rightarrow> UNKNOWN_ADDR
      | Some m \<Rightarrow> if inModule m a then a - base m else UNKNOWN_ADDR)"

definition getSecByAddr :: "tracer_env \<Rightarrow> ADDRINT \<Rightarrow> s_module option" where
  "getSecByAddr env rva =
     (case tracedModule env of
        None \<Rightarrow> None
      | Some m \<Rightarrow> find (\<lambda>sec. startOffset sec \<le> rva \<and> rva < endOffset sec) (sections m))"

definition updateTracedModuleSection ::
    "tracer_env \<Rightarrow> ADDRINT \<Rightarrow> tracer_state \<Rightarrow> bool \<times> tracer_state" where
  "updateTracedModuleSection env rva s =
     (if getSecByAddr env rva \<noteq> getSecByAddr env (lastKnownSectionOffset s)
      then (True, s\<lparr>lastKnownSectionOffset := rva\<rparr>)
      else (False, s))"

subsection \<open>The three blocks of \<^verbatim>\<open>_SaveTransitions\<close>\<close>

text \<open>\<^verbatim>\<open>(sec) ? sec->name : "?"\<close>\<close>

definition section_name :: "s_module option \<Rightarrow> string" where
  "section_name sec = (case sec of Some sc \<Rightarrow> name sc | None \<Rightarrow> ''?'')"

text \<open>First block: a transition from the traced module to a foreign address.\<close>

definition transition_to_foreign ::
    "tracer_env \<Rightarrow> ADDRINT \<Rightarrow> ADDRINT \<Rightarrow> tracer_state \<Rightarrow> tracer_state" where
  "transition_to_foreign env addrFrom addrTo s =
     (if isMyAddress env addrFrom \<and> \<not> isMyAddress env addrTo then
        (case IMG_FindByAddress env addrTo of
           Some targetModule \<Rightarrow>
             log_append (LogCall 0 (addr_to_rva env addrFrom) True
                           (moduleName targetModule) (get_func_at env addrTo)) s
         | None \<Rightarrow>
             log_append (LogCallShellc 0 (addr_to_rva env addrFrom)
                           (GetPageOfAddr env addrTo) addrTo)
               (s\<lparr>lastShellc := GetPageOfAddr env addrTo\<rparr>))
      else s)"

text \<open>Second block: calls from within the last shellcode called from the traced module.\<close>

definition calls_from_shellcode ::
    "tracer_env \<Rightarrow> ADDRINT \<Rightarrow> ADDRINT \<Rightarrow> tracer_state \<Rightarrow> tracer_state" where
  "calls_from_shellcode env addrFrom addrTo s =
     (if m_FollowShellcode env \<noteq> 0 \<and> IMG_FindByAddress env addrFrom = None then
        (if GetPageOfAddr env addrFrom \<noteq> UNKNOWN_ADDR
            \<and> GetPageOfAddr env addrFrom = lastShellc s then
           (case IMG_FindByAddress env addrTo of
              Some targetModule \<Rightarrow>
                log_append (LogCall (GetPageOfAddr env addrFrom) addrFrom False
                              (moduleName targetModule) (get_func_at env addrTo)) s
            | None \<Rightarrow>
                if GetPageOfAddr env addrFrom \<noteq> GetPageOfAddr env addrTo
                   \<and> m_FollowShellcode env = SHELLC_FOLLOW_RECURSIVE
                then s\<lparr>lastShellc := GetPageOfAddr env addrTo\<rparr>
                else s)
         else s)
      else s)"

text \<open>Third block: the target is within the traced module.\<close>

definition section_transition ::
    "tracer_env \<Rightarrow> ADDRINT \<Rightarrow> ADDRINT \<Rightarrow> tracer_state \<Rightarrow> tracer_state" where
  "section_transition env addrFrom addrTo s =
     (if isMyAddress env addrTo then
        (case updateTracedModuleSection env (addr_to_rva env addrTo) s of
           (True, s') \<Rightarrow>
             log_append
               (LogSectionChange (addr_to_rva env addrTo)
                  (section_name (getSecByAddr env (addr_to_rva env addrTo))))
               (if isMyAddress env addrFrom then
                  log_append
                    (LogNewSectionCalled (addr_to_rva env addrFrom)
                       (section_name (getSecByAddr env (addr_to_rva env addrFrom)))
                       (section_name (getSecByAddr env (addr_to_rva env addrTo)))) s'
                else s')
         | (False, s') \<Rightarrow> s')
      else s)"

definition impl_SaveTransitions ::
    "tracer_env \<Rightarrow> ADDRINT \<Rightarrow> ADDRINT \<Rightarrow> tracer_state \<Rightarrow> tracer_state" where
  "impl_SaveTransitions env addrFrom addrTo s =
     section_transition env addrFrom addrTo
       (calls_from_shellcode env addrFrom addrTo
          (transition_to_foreign env addrFrom addrTo s))"

text \<open>
  \<^verbatim>\<open>SaveTransitions\<close> and \<^verbatim>\<open>OnCtxChange\<close> call \<^verbatim>\<open>_SaveTransitions\<close> under the client
  lock, one edge at a time.
\<close>

definition SaveTransitions ::
    "tracer_env \<Rightarrow> ADDRINT \<Rightarrow> ADDRINT \<Rightarrow> tracer_state \<Rightarrow> tracer_state" where
  "SaveTransitions env prevVA Address s = impl_SaveTransitions env prevVA Address s"

subsection \<open>Runs\<close>

text \<open>
  An event is an edge together with what the engine answers while the edge is handled.
  The static \<^verbatim>\<open>lastShellc\<close> starts as \<^verbatim>\<open>UNKNOWN_ADDR\<close> and the log is empty.
\<close>

type_synonym edge_event = "tracer_env \<times> ADDRINT \<times> ADDRINT"

definition process_edge :: "tracer_state \<Rightarrow> edge_event \<Rightarrow> tracer_state" where
  "process_edge s e = (case e of (env, addrFrom, addrTo) \<Rightarrow> SaveTransitions env addrFrom addrTo s)"

definition run_edges :: "tracer_state \<Rightarrow> edge_event list \<Rightarrow> tracer_state" where
  "run_edges s es = foldl process_edge s es"

definition initial_state :: "ADDRINT \<Rightarrow> tracer_state" where
  "initial_state cursor =
     \<lparr>lastShellc = UNKNOWN_ADDR, lastKnownSectionOffset = cursor, traceLog = []\<rparr>"

subsection \<open>Kinds of records and of assignments\<close>

fun is_call_record :: "trace_record \<Rightarrow> bool" where
  "is_call_record (LogCall b a r m f) = True"
| "is_call_record (LogCallShellc b a p t) = True"
| "is_call_record _ = False"

fun is_section_change :: "trace_record \<Rightarrow> bool" where
  "is_section_change (LogSectionChange a n) = True"
| "is_section_change _ = False"

fun is_section_entry :: "trace_record \<Rightarrow> bool" where
  "is_section_entry (LogNewSectionCalled a p n) = True"
| "is_section_entry _ = False"

text \<open>
  The two events that the spec allows to set the followed page: in case A the target of
  an edge out of the traced module lies in no module; in case B, under the recursive
  mode, an edge from the followed page \<open>cur\<close> goes to another page that lies in no
  module.
\<close>

definition caseA_unmapped :: "tracer_env \<Rightarrow> ADDRINT \<Rightarrow> ADDRINT \<Rightarrow> bool" where
  "caseA_unmapped env addrFrom addrTo =
     (isMyAddress env addrFrom \<and> \<not> isMyAddress env addrTo
      \<and> IMG_FindByAddress env addrTo = None)"

definition caseB_recursive_hop :: "tracer_env \<Rightarrow> ADDRINT \<Rightarrow> ADDRINT \<Rightarrow> ADDRINT \<Rightarrow> bool" where
  "caseB_recursive_hop env addrFrom addrTo cur =
     (m_FollowShellcode env = SHELLC_FOLLOW_RECURSIVE
      \<and> IMG_FindByAddress env addrFrom = None
      \<and> GetPageOfAddr env addrFrom \<noteq> UNKNOWN_ADDR
      \<and> GetPageOfAddr env addrFrom = cur
      \<and> IMG_FindByAddress env addrTo = None
      \<and> GetPageOfAddr env addrFrom \<noteq> GetPageOfAddr env addrTo)"

definition assigns :: "tracer_state \<Rightarrow> edge_event \<Rightarrow> bool" where
  "assigns s e =
     (case e of (env, addrFrom, addrTo) \<Rightarrow>
        caseA_unmapped env addrFrom addrTo
        \<or> caseB_recursive_hop env addrFrom addrTo (lastShellc s))"

definition assigned_page :: "edge_event \<Rightarrow> ADDRINT" where
  "assigned_page e = (case e of (env, addrFrom, addrTo) \<Rightarrow> GetPageOfAddr env addrTo)"

section \<open>Watched functions (TinyTracer.cpp)\<close>

subsection \<open>The guard\<close>

definition isWatchedAddress :: "tracer_env \<Rightarrow> ADDRINT \<Rightarrow> bool" where
  "isWatchedAddress env Address =
     (if isMyAddress env Address then True
      else if m_FollowShellcode env \<noteq> 0 \<and> IMG_FindByAddress env Address = None then
        (if GetPageOfAddr env Address \<noteq> UNKNOWN_ADDR then True else False)
      else False)"

text \<open>
  The condition on the caller under which the first two blocks of \<^verbatim>\<open>_SaveTransitions\<close>
  act: the caller is in the traced module, or following is on and the caller lies in no
  module, on the page that is followed.
\<close>

definition classifier_eligible :: "tracer_env \<Rightarrow> tracer_state \<Rightarrow> ADDRINT \<Rightarrow> bool" where
  "classifier_eligible env s a =
     (isMyAddress env a
      \<or> (m_FollowShellcode env \<noteq> 0 \<and> IMG_FindByAddress env a = None
         \<and> GetPageOfAddr env a \<noteq> UNKNOWN_ADDR \<and> GetPageOfAddr env a = lastShellc s))"

subsection \<open>Text\<close>

text \<open>
  Wide strings are lists of 16-bit units. A narrow literal put into the wide stream is
  widened character by character, and the finished line is narrowed again, each unit
  cut to its low byte.
\<close>

type_synonym byte = "8 word"

type_synonym wchar_t = "16 word"

definition widen :: "string \<Rightarrow> wchar_t list" where
  "widen cs = map of_char cs"

definition narrow :: "wchar_t list \<Rightarrow> string" where
  "narrow ws = map (\<lambda>w. char_of (unat w)) ws"

function radix_digits :: "nat \<Rightarrow> nat \<Rightarrow> string" where
  "radix_digits b n =
     (if n < b \<or> b < 2 then [''0123456789abcdef'' ! n]
      else radix_digits b (n div b) @ [''0123456789abcdef'' ! (n mod b)])"
  by pat_completeness auto
termination
  by (relation "measure (\<lambda>(b, n). n)") auto

declare radix_digits.simps [simp del]

text \<open>
  Modelled from the spec: how \<^verbatim>\<open>ss << std::hex << arg1\<close> prints a pointer is left to the
  library; the spec's example is \<^verbatim>\<open>0xdead0000\<close>.
\<close>

definition hex_ptr :: "ADDRINT \<Rightarrow> wchar_t list" where
  "hex_ptr p = widen (''0x'' @ radix_digits 16 (unat p))"

subsection \<open>Classifying a value\<close>

text \<open>
  The memory of the target as \<^verbatim>\<open>paramToStr\<close> sees it: whether an address can be read,
  and the bytes that can be read from it on. The end of these bytes ends a string in the
  same way a NUL does.
\<close>

record target_memory =
  PIN_CheckReadAccess :: "ADDRINT \<Rightarrow> bool"
  bytes_at :: "ADDRINT \<Rightarrow> byte list"

text \<open>
  Modelled from the spec: \<^verbatim>\<open>util::getAsciiLen\<close> and \<^verbatim>\<open>util::getAsciiLenW\<close> are defined
  in Util.cpp. The spec says they give the length of the longest leading run of printable
  characters, of bytes and of 16-bit units, capped at the given maximum.
\<close>

definition isPrintable :: "nat \<Rightarrow> bool" where
  "isPrintable c = (0x20 \<le> c \<and> c < 0x7F)"

definition getAsciiLen :: "byte list \<Rightarrow> nat \<Rightarrow> nat" where
  "getAsciiLen inp maxInp = min maxInp (length (takeWhile (\<lambda>b. isPrintable (unat b)) inp))"

definition getAsciiLenW :: "wchar_t list \<Rightarrow> nat \<Rightarrow> nat" where
  "getAsciiLenW inp maxInp = min maxInp (length (takeWhile (\<lambda>w. isPrintable (unat w)) inp))"

text \<open>The same bytes read as little-endian 16-bit units, for the cast to \<^verbatim>\<open>wchar_t*\<close>.\<close>

fun as_wchars :: "byte list \<Rightarrow> wchar_t list" where
  "as_wchars (lo # hi # rest) = (push_bit 8 (ucast hi) OR ucast lo) # as_wchars rest"
| "as_wchars _ = []"

text \<open>What the stream prints for a \<^verbatim>\<open>char*\<close> and for a \<^verbatim>\<open>wchar_t*\<close>: up to the first NUL.\<close>

definition print_cstr :: "byte list \<Rightarrow> wchar_t list" where
  "print_cstr val = map ucast (takeWhile (\<lambda>b. b \<noteq> 0) val)"

definition print_wcstr :: "wchar_t list \<Rightarrow> wchar_t list" where
  "print_wcstr val = takeWhile (\<lambda>w. w \<noteq> 0) val"

definition kMaxStr :: nat where
  "kMaxStr = 300"

definition quote :: "wchar_t list" where
  "quote = widen [CHR 0x22]"

definition paramToStr :: "target_memory \<Rightarrow> ADDRINT \<Rightarrow> wchar_t list" where
  "paramToStr mem arg1 =
     (if arg1 = 0 then widen ''0''
      else if \<not> PIN_CheckReadAccess mem arg1 then hex_ptr arg1
      else
        let val = bytes_at mem arg1;
            len = getAsciiLen val kMaxStr
        in if len = 1 then
             (if getAsciiLenW (as_wchars val) kMaxStr \<ge> len
              then widen ''L'' @ quote @ print_wcstr (as_wchars val) @ quote
              else widen ''ptr '' @ hex_ptr arg1)
           else if len > 1 then quote @ print_cstr val @ quote
           else widen ''ptr '' @ hex_ptr arg1)"

subsection \<open>The probe\<close>

definition argsMax :: nat where
  "argsMax = 10"

text \<open>
  \<^verbatim>\<open>_LogFunctionArgs\<close>; \<open>args\<close> is the array of the ten captured values
  \<^verbatim>\<open>arg1\<close>, ..., \<^verbatim>\<open>arg10\<close>.
\<close>

definition impl_LogFunctionArgs ::
    "tracer_env \<Rightarrow> target_memory \<Rightarrow> ADDRINT \<Rightarrow> string \<Rightarrow> nat \<Rightarrow> ADDRINT list
       \<Rightarrow> tracer_state \<Rightarrow> tracer_state" where
  "impl_LogFunctionArgs env mem Address fname argCount args s =
     (if \<not> isWatchedAddress env Address then s
      else
        log_append
          (LogLine (narrow (concat (map
             (\<lambda>i. widen (CHR 0x09 # ''Arg['') @ widen (radix_digits 10 i) @ widen ''] = ''
                    @ paramToStr mem (args ! i) @ widen [CHR 0x0A])
             [0 ..< min argCount argsMax])))) s)"

definition LogFunctionArgs ::
    "tracer_env \<Rightarrow> target_memory \<Rightarrow> ADDRINT \<Rightarrow> string \<Rightarrow> nat \<Rightarrow> ADDRINT list
       \<Rightarrow> tracer_state \<Rightarrow> tracer_state" where
  "LogFunctionArgs env mem Address fname argCount args s =
     impl_LogFunctionArgs env mem Address fname argCount args s"

section \<open>The spoofed time stamp counter (TinyTracer.cpp)\<close>

text \<open>
  The two registers of the context that \<^verbatim>\<open>_setTimer\<close> reads. The static \<^verbatim>\<open>Timer\<close> is
  passed in and returned next to the result.
\<close>

record CONTEXT =
  REG_GDX :: ADDRINT
  REG_GAX :: ADDRINT

definition impl_setTimer :: "64 word \<Rightarrow> CONTEXT \<Rightarrow> bool \<Rightarrow> ADDRINT \<times> 64 word" where
  "impl_setTimer Timer ctxt isEax =
     (let Timer' = (if Timer = 0 then push_bit 32 (REG_GDX ctxt) OR REG_GAX ctxt
                    else Timer + 100)
      in (if isEax then drop_bit 32 (push_bit 32 Timer') else drop_bit 32 Timer', Timer'))"

definition AlterRdtscValueEdx :: "64 word \<Rightarrow> CONTEXT \<Rightarrow> ADDRINT \<times> 64 word" where
  "AlterRdtscValueEdx Timer ctxt = impl_setTimer Timer ctxt False"

definition AlterRdtscValueEax :: "64 word \<Rightarrow> CONTEXT \<Rightarrow> ADDRINT \<times> 64 word" where
  "AlterRdtscValueEax Timer ctxt = impl_setTimer Timer ctxt True"

text \<open>
  One execution of \<^verbatim>\<open>rdtsc\<close> as \<^verbatim>\<open>InstrumentInstruction\<close> instruments it: after the
  instruction, \<^verbatim>\<open>AlterRdtscValueEdx\<close> runs and its result goes to \<^verbatim>\<open>REG_GDX\<close>, then
  \<^verbatim>\<open>AlterRdtscValueEax\<close> runs and its result goes to \<^verbatim>\<open>REG_GAX\<close>. The result is the
  context the program goes on with, and the counter.
\<close>

definition rdtsc_after :: "64 word \<Rightarrow> CONTEXT \<Rightarrow> CONTEXT \<times> 64 word" where
  "rdtsc_after Timer ctxt =
     (let (edx, Timer1) = AlterRdtscValueEdx Timer ctxt;
          ctxt1 = ctxt\<lparr>REG_GDX := edx\<rparr>;
          (eax, Timer2) = AlterRdtscValueEax Timer1 ctxt1
      in (ctxt1\<lparr>REG_GAX := eax\<rparr>, Timer2))"

section \<open>Example data\<close>

text \<open>
  A traced module at \<open>0x400000\<close> with the sections \<open>.text = [0, 0x1000)\<close> and
  \<open>.data = [0x1000, 0x2000)\<close>, a second module, pages of \<open>0x1000\<close> bytes, and a
  memory with an ASCII string, a wide string and four unprintable bytes.
\<close>

definition example_modules :: "ModuleRecord list" where
  "example_modules =
     [\<lparr>moduleName = ''target.exe'', base = 0x400000, imageSize = 0x2000,
       sections = [\<lparr>name = ''.text'', startOffset = 0, endOffset = 0x1000\<rparr>,
                   \<lparr>name = ''.data'', startOffset = 0x1000, endOffset = 0x2000\<rparr>],
       isTraced = True\<rparr>,
      \<lparr>moduleName = ''kernel32.dll'', base = 0x70000000, imageSize = 0x10000,
       sections = [], isTraced = False\<rparr>]"

definition example_env :: tracer_env where
  "example_env =
     \<lparr>modules = example_modules,
      get_func_at = (\<lambda>a. if a = 0x70001000 then ''CreateFileW'' else ''?''),
      GetPageOfAddr = (\<lambda>a. a AND NOT 0xFFF),
      m_FollowShellcode = SHELLC_FOLLOW_FIRST\<rparr>"

definition example_state :: tracer_state where
  "example_state = initial_state 0"

definition example_env_recursive :: tracer_env where
  "example_env_recursive = example_env\<lparr>m_FollowShellcode := SHELLC_FOLLOW_RECURSIVE\<rparr>"

definition example_memory :: target_memory where
  "example_memory =
     \<lparr>PIN_CheckReadAccess = (\<lambda>a. a = 0x5000 \<or> a = 0x6000 \<or> a = 0x7000),
      bytes_at = (\<lambda>a. if a = 0x5000 then [0x43, 0x3A, 0x5C, 0x61, 0x2E, 0x74, 0x78, 0x74, 0]
                       else if a = 0x6000 then [0x61, 0, 0x62, 0, 0, 0]
                       else if a = 0x7000 then [0x01, 0x02, 0x03, 0x04]
                       else [])\<rparr>"

definition example_args :: "ADDRINT list" where
  "example_args = [0x5000, 0, 0x6000, 0, 0, 0, 0, 0, 0, 0]"



section \<open>Auxiliary facts\<close>

lemmas example_defs = example_env_def example_modules_def example_state_def initial_state_def
  isMyAddress_def tracedModule_def inModule_def IMG_FindByAddress_def addr_to_rva_def
  getSecByAddr_def

subsection \<open>The blocks of \<^verbatim>\<open>_SaveTransitions\<close>\<close>

lemma find_Some_set: "find P xs = Some x \<Longrightarrow> x \<in> set xs \<and> P x"
  by (induction xs) (auto split: if_splits)

lemma isMyAddress_IMG_Valid:
  assumes "isMyAddress env a"
  shows "IMG_FindByAddress env a \<noteq> None"
proof -
  from assms obtain m where "tracedModule env = Some m" "inModule m a"
    by (auto simp: isMyAddress_def split: option.splits)
  then have "m \<in> set (modules env)" "inModule m a"
    by (auto simp: tracedModule_def dest: find_Some_set)
  then show ?thesis
    by (auto simp: IMG_FindByAddress_def find_None_iff)
qed

lemma isMyAddress_rva:
  "isMyAddress env a \<Longrightarrow> \<exists>m. tracedModule env = Some m \<and> addr_to_rva env a = a - base m"
  by (auto simp: isMyAddress_def addr_to_rva_def split: option.splits)

lemma calls_from_shellcode_traced_caller:
  "isMyAddress env a \<Longrightarrow> calls_from_shellcode env a b s = s"
  by (auto simp: calls_from_shellcode_def dest: isMyAddress_IMG_Valid)

lemma section_transition_foreign_target:
  "\<not> isMyAddress env b \<Longrightarrow> section_transition env a b s = s"
  by (simp add: section_transition_def)

lemma transition_to_foreign_no_leave:
  "\<not> (isMyAddress env a \<and> \<not> isMyAddress env b) \<Longrightarrow> transition_to_foreign env a b s = s"
  by (auto simp: transition_to_foreign_def)

lemma transition_to_foreign_leave:
  assumes "isMyAddress env a" and "\<not> isMyAddress env b"
  shows "\<exists>c. is_call_record c \<and> (\<forall>s. traceLog (transition_to_foreign env a b s) = traceLog s @ [c])"
  using assms
  by (cases "IMG_FindByAddress env b") (auto simp: transition_to_foreign_def log_append_def)

lemma calls_from_shellcode_log:
  "\<exists>pre. traceLog (calls_from_shellcode env a b s) = traceLog s @ pre
     \<and> (\<forall>r \<in> set pre. \<not> is_section_change r \<and> \<not> is_section_entry r)
     \<and> lastKnownSectionOffset (calls_from_shellcode env a b s) = lastKnownSectionOffset s"
  by (simp add: calls_from_shellcode_def log_append_def split: option.splits)

lemma section_transition_crossing:
  assumes "isMyAddress env b"
    and "getSecByAddr env (addr_to_rva env b) \<noteq> getSecByAddr env (lastKnownSectionOffset s)"
  shows "traceLog (section_transition env a b s) =
           traceLog s @
           (if isMyAddress env a
            then [LogNewSectionCalled (addr_to_rva env a)
                    (section_name (getSecByAddr env (addr_to_rva env a)))
                    (section_name (getSecByAddr env (addr_to_rva env b)))]
            else []) @
           [LogSectionChange (addr_to_rva env b)
              (section_name (getSecByAddr env (addr_to_rva env b)))]"
    and "lastKnownSectionOffset (section_transition env a b s) = addr_to_rva env b"
  using assms
  by (simp_all add: section_transition_def updateTracedModuleSection_def log_append_def)

lemma section_transition_same_section:
  assumes "getSecByAddr env (addr_to_rva env b) = getSecByAddr env (lastKnownSectionOffset s)"
  shows "section_transition env a b s = s"
  using assms by (simp add: section_transition_def updateTracedModuleSection_def)

lemma transition_to_foreign_log:
  "\<exists>out. traceLog (transition_to_foreign env a b s) = traceLog s @ out
     \<and> lastKnownSectionOffset (transition_to_foreign env a b s) = lastKnownSectionOffset s"
  by (simp add: transition_to_foreign_def log_append_def split: option.splits)

lemma section_transition_log:
  "\<exists>out. traceLog (section_transition env a b s) = traceLog s @ out"
  by (simp add: section_transition_def updateTracedModuleSection_def log_append_def)

lemma SaveTransitions_log_extends:
  "traceLog (SaveTransitions env a b s) = traceLog s @ emitted s (SaveTransitions env a b s)"
proof -
  obtain o1 where o1: "traceLog (transition_to_foreign env a b s) = traceLog s @ o1"
    using transition_to_foreign_log[of env a b s] by blast
  obtain o2 where o2: "traceLog (calls_from_shellcode env a b (transition_to_foreign env a b s))
      = traceLog (transition_to_foreign env a b s) @ o2"
    using calls_from_shellcode_log[of env a b "transition_to_foreign env a b s"] by blast
  obtain o3 where o3: "traceLog (SaveTransitions env a b s)
      = traceLog (calls_from_shellcode env a b (transition_to_foreign env a b s)) @ o3"
    using section_transition_log[of env a b
        "calls_from_shellcode env a b (transition_to_foreign env a b s)"]
    by (auto simp: SaveTransitions_def impl_SaveTransitions_def)
  show ?thesis by (simp add: emitted_def o1 o2 o3)
qed

lemma lastShellc_log_append [simp]: "lastShellc (log_append r s) = lastShellc s"
  by (simp add: log_append_def)

lemma lastShellc_section_transition:
  "lastShellc (section_transition env a b s) = lastShellc s"
  by (simp add: section_transition_def updateTracedModuleSection_def)

lemma lastShellc_transition_to_foreign:
  "lastShellc (transition_to_foreign env a b s) =
     (if caseA_unmapped env a b then GetPageOfAddr env b else lastShellc s)"
  by (simp add: transition_to_foreign_def caseA_unmapped_def split: option.splits)

lemma lastShellc_calls_from_shellcode:
  "lastShellc (calls_from_shellcode env a b s) =
     (if caseB_recursive_hop env a b (lastShellc s) then GetPageOfAddr env b else lastShellc s)"
  by (simp add: calls_from_shellcode_def caseB_recursive_hop_def SHELLC_FOLLOW_RECURSIVE_def
      split: option.splits)

lemma caseA_excludes_caseB:
  "caseA_unmapped env a b \<Longrightarrow> \<not> caseB_recursive_hop env a b cur"
  using isMyAddress_IMG_Valid[of env a]
  by (simp add: caseA_unmapped_def caseB_recursive_hop_def)

lemma lastShellc_step:
  "lastShellc (SaveTransitions env a b s) =
     (if caseA_unmapped env a b \<or> caseB_recursive_hop env a b (lastShellc s)
      then GetPageOfAddr env b else lastShellc s)"
proof (cases "caseA_unmapped env a b")
  case True
  then show ?thesis
    by (simp add: SaveTransitions_def impl_SaveTransitions_def lastShellc_section_transition
        lastShellc_calls_from_shellcode lastShellc_transition_to_foreign caseA_excludes_caseB)
next
  case False
  then show ?thesis
    by (simp add: SaveTransitions_def impl_SaveTransitions_def lastShellc_section_transition
        lastShellc_calls_from_shellcode lastShellc_transition_to_foreign)
qed

lemma lastShellc_process_edge:
  "lastShellc (process_edge s e) = (if assigns s e then assigned_page e else lastShellc s)"
  by (cases e) (simp add: process_edge_def assigns_def assigned_page_def lastShellc_step)

lemma run_edges_snoc: "run_edges s (es @ [e]) = process_edge (run_edges s es) e"
  by (simp add: run_edges_def)

text \<open>The static over a run of edges, by induction on the run.\<close>

lemma lastShellc_run:
  "((\<forall>i<length es. \<not> assigns (run_edges (initial_state c) (take i es)) (es ! i)) \<longrightarrow>
      lastShellc (run_edges (initial_state c) es) = UNKNOWN_ADDR)
   \<and> (lastShellc (run_edges (initial_state c) es) = UNKNOWN_ADDR
       \<or> (\<exists>i<length es. assigns (run_edges (initial_state c) (take i es)) (es ! i)
            \<and> lastShellc (run_edges (initial_state c) es) = assigned_page (es ! i)))"
proof (induction es rule: rev_induct)
  case Nil
  show ?case by (simp add: run_edges_def initial_state_def)
next
  case (snoc e es)
  let ?s = "run_edges (initial_state c) es"
  have pre: "\<And>i. i < length es \<Longrightarrow>
      run_edges (initial_state c) (take i (es @ [e])) = run_edges (initial_state c) (take i es)
      \<and> (es @ [e]) ! i = es ! i"
    by (simp add: nth_append)
  have lst: "run_edges (initial_state c) (take (length es) (es @ [e])) = ?s"
    "(es @ [e]) ! length es = e"
    by simp_all
  show ?case
  proof (cases "assigns ?s e")
    case True
    then have "lastShellc (run_edges (initial_state c) (es @ [e])) = assigned_page e"
      by (simp add: run_edges_snoc lastShellc_process_edge)
    with True lst show ?thesis
      by (metis length_append_singleton lessI)
  next
    case False
    then have eq: "lastShellc (run_edges (initial_state c) (es @ [e])) = lastShellc ?s"
      by (simp add: run_edges_snoc lastShellc_process_edge)
    have first: "(\<forall>i<length (es @ [e]).
          \<not> assigns (run_edges (initial_state c) (take i (es @ [e]))) ((es @ [e]) ! i)) \<longrightarrow>
        lastShellc (run_edges (initial_state c) (es @ [e])) = UNKNOWN_ADDR"
    proof
      assume h: "\<forall>i<length (es @ [e]).
          \<not> assigns (run_edges (initial_state c) (take i (es @ [e]))) ((es @ [e]) ! i)"
      have "\<forall>i<length es. \<not> assigns (run_edges (initial_state c) (take i es)) (es ! i)"
      proof (intro allI impI)
        fix i assume i: "i < length es"
        then have "i < length (es @ [e])" by simp
        with h have "\<not> assigns (run_edges (initial_state c) (take i (es @ [e]))) ((es @ [e]) ! i)"
          by blast
        with pre[OF i] show "\<not> assigns (run_edges (initial_state c) (take i es)) (es ! i)"
          by simp
      qed
      with snoc.IH eq show "lastShellc (run_edges (initial_state c) (es @ [e])) = UNKNOWN_ADDR"
        by simp
    qed
    have second: "lastShellc (run_edges (initial_state c) (es @ [e])) = UNKNOWN_ADDR
       \<or> (\<exists>i<length (es @ [e]).
            assigns (run_edges (initial_state c) (take i (es @ [e]))) ((es @ [e]) ! i)
            \<and> lastShellc (run_edges (initial_state c) (es @ [e])) = assigned_page ((es @ [e]) ! i))"
    proof (cases "lastShellc ?s = UNKNOWN_ADDR")
      case True
      with eq show ?thesis by simp
    next
      case False
      with snoc.IH obtain i where i: "i < length es"
        and a: "assigns (run_edges (initial_state c) (take i es)) (es ! i)"
        and l: "lastShellc ?s = assigned_page (es ! i)"
        by blast
      from i have "i < length (es @ [e])" by simp
      moreover from pre[OF i] a
      have "assigns (run_edges (initial_state c) (take i (es @ [e]))) ((es @ [e]) ! i)"
        by simp
      moreover from pre[OF i] l eq
      have "lastShellc (run_edges (initial_state c) (es @ [e])) = assigned_page ((es @ [e]) ! i)"
        by simp
      ultimately show ?thesis by blast
    qed
    from first second show ?thesis by blast
  qed
qed

subsection \<open>The watch list\<close>

lemma findFunc_Some_less: "findFunc funcs dll fn = Some i \<Longrightarrow> i < length funcs"
  by (induction funcs arbitrary: i) (auto split: if_splits)




lemma iequals_refl [simp]: "iequals a a"
  by (simp add: iequals_def)

lemma WFuncInfo_update_names:
  "dllName (snd (WFuncInfo_update this fi)) = dllName this
   \<and> funcName (snd (WFuncInfo_update this fi)) = funcName this"
  by (simp add: WFuncInfo_update_def)

lemma appendFunc_keeps_valid:
  assumes "list_all isValid funcs"
  shows "list_all isValid (snd (appendFunc funcs fi))"
proof (cases "isValid fi")
  case False
  with assms show ?thesis by (simp add: appendFunc_def)
next
  case True
  show ?thesis
  proof (cases "findFunc funcs (dllName fi) (funcName fi)")
    case None
    with True assms show ?thesis by (simp add: appendFunc_def)
  next
    case (Some i)
    then have i: "i < length funcs" by (rule findFunc_Some_less)
    with assms have "isValid (funcs ! i)" by (simp add: list_all_length)
    then have u: "isValid (snd (WFuncInfo_update (funcs ! i) fi))"
      by (simp add: isValid_def WFuncInfo_update_names)
    have "set (funcs[i := snd (WFuncInfo_update (funcs ! i) fi)])
            \<subseteq> insert (snd (WFuncInfo_update (funcs ! i) fi)) (set funcs)"
      by (rule set_update_subset_insert)
    with u assms have "list_all isValid (funcs[i := snd (WFuncInfo_update (funcs ! i) fi)])"
      by (auto simp: list_all_iff)
    with True Some show ?thesis by (simp add: appendFunc_def)
  qed
qed

subsection \<open>Loading the watch list\<close>

lemmas watch_defs = WFuncInfo_load_def split_list_def split_loop.simps getline_str_def
  extract_size_t_def skip_sign_def isspace_c_def isdigit_c_def dec_value_def digit_val_def
  SIZE_MAX_def WFuncInfo_default_def Let_def loadList_def ifstream_open_def istream_getline_def
  newline_def c_str_def MAX_LINE_def loadList_body_def appendFunc_def isValid_def iequals_def
  tolower_c_def WFuncInfo_update_def loadList_loop.simps

text \<open>Once the fail bit is set without the end-of-file bit, the loop never ends.\<close>

lemma istream_getline_stuck:
  "failbit f \<and> \<not> eofbit f \<Longrightarrow> fst (istream_getline f n) = f"
  by (simp add: istream_getline_def)

lemma loadList_loop_returns_not_stuck:
  assumes "loadList_loop f funcs = Some r"
  shows "\<not> (failbit f \<and> \<not> eofbit f)"
proof (rule loadList_loop.raw_induct
    [where P = "\<lambda>f funcs r. \<not> (failbit f \<and> \<not> eofbit f)", OF _ assms])
  fix loop :: "ifstream \<Rightarrow> WFuncInfo list \<Rightarrow> WFuncInfo list option"
  fix g fs y
  assume IH: "\<And>h hs z. loop h hs = Some z \<Longrightarrow> \<not> (failbit h \<and> \<not> eofbit h)"
    and step: "(if eofbit g then Some fs
                else loop (fst (istream_getline g MAX_LINE))
                       (loadList_body fs (snd (istream_getline g MAX_LINE)))) = Some y"
  show "\<not> (failbit g \<and> \<not> eofbit g)"
  proof
    assume st: "failbit g \<and> \<not> eofbit g"
    with step have "loop g (loadList_body fs (snd (istream_getline g MAX_LINE))) = Some y"
      by (simp add: istream_getline_stuck)
    from IH[OF this] st show False by simp
  qed
qed

lemma loadList_loop_stuck:
  "failbit f \<Longrightarrow> \<not> eofbit f \<Longrightarrow> loadList_loop f funcs = None"
  using loadList_loop_returns_not_stuck[of f funcs] by (cases "loadList_loop f funcs") auto

lemma takeWhile_replicate_newline:
  "c \<noteq> newline \<Longrightarrow>
     takeWhile (\<lambda>x. x \<noteq> newline) (replicate k c @ newline # rest) = replicate k c"
  by (induction k) auto

lemma istream_getline_long_line:
  assumes "c \<noteq> newline" and "n \<le> k"
  shows "failbit (fst (istream_getline (ifstream_open (replicate k c @ newline # rest)) n))
         \<and> \<not> eofbit (fst (istream_getline (ifstream_open (replicate k c @ newline # rest)) n))"
  using assms
  by (simp add: istream_getline_def ifstream_open_def Let_def takeWhile_replicate_newline)

lemma loadList_long_first_line:
  assumes "c \<noteq> newline" and "MAX_LINE \<le> k"
  shows "loadList (Some (replicate k c @ newline # rest)) funcs = None"
proof -
  let ?f = "ifstream_open (replicate k c @ newline # rest)"
  have "loadList_loop (fst (istream_getline ?f MAX_LINE)) fs = None" for fs
    using istream_getline_long_line[OF assms] by (simp add: loadList_loop_stuck)
  then have "loadList_loop ?f funcs = None"
    by (subst loadList_loop.simps) (simp add: ifstream_open_def)
  then show ?thesis by (simp add: loadList_def)
qed

text \<open>
  A file that cannot be opened, a line with fewer than three fields, and a count without
  a digit.
\<close>

lemma split_loop_Nil: "split_loop d [] args = args"
  by (simp add: split_loop.simps[of d "[]"] getline_str_def)

lemma split_loop_Cons:
  "f \<noteq> [] \<Longrightarrow>
     split_loop d f args =
       split_loop d (drop 1 (dropWhile (\<lambda>c. c \<noteq> d) f)) (args @ [takeWhile (\<lambda>c. c \<noteq> d) f])"
  by (simp add: split_loop.simps[of d f] getline_str_def)

lemma split_loop_acc: "split_loop d f args = args @ split_loop d f []"
proof (induction "length f" arbitrary: f args rule: less_induct)
  case less
  show ?case
  proof (cases "f = []")
    case True
    then show ?thesis by (simp add: split_loop_Nil)
  next
    case False
    let ?r = "drop 1 (dropWhile (\<lambda>c. c \<noteq> d) f)"
    let ?s = "takeWhile (\<lambda>c. c \<noteq> d) f"
    have "getline_str d f = Some (?s, ?r)"
      using False by (simp add: getline_str_def)
    then have sh: "length ?r < length f" by (rule getline_str_shorter)
    have "split_loop d f args = split_loop d ?r (args @ [?s])"
      using False by (rule split_loop_Cons)
    also have "\<dots> = (args @ [?s]) @ split_loop d ?r []"
      using less[OF sh] .
    finally have l: "split_loop d f args = args @ ?s # split_loop d ?r []" by simp
    have "split_loop d f [] = split_loop d ?r ([] @ [?s])"
      using False by (rule split_loop_Cons)
    also have "\<dots> = ([] @ [?s]) @ split_loop d ?r []"
      using less[OF sh] .
    finally have "split_loop d f [] = ?s # split_loop d ?r []" by simp
    with l show ?thesis by simp
  qed
qed

lemma split_loop_lines:
  "f \<noteq> [] \<Longrightarrow>
     split_loop d f [] =
       takeWhile (\<lambda>c. c \<noteq> d) f # split_loop d (drop 1 (dropWhile (\<lambda>c. c \<noteq> d) f)) []"
  using split_loop_Cons[of f d "[]"]
    split_loop_acc[of d "drop 1 (dropWhile (\<lambda>c. c \<noteq> d) f)" "[takeWhile (\<lambda>c. c \<noteq> d) f]"]
  by simp

lemma WFuncInfo_load_few_fields:
  "length (split_loop delimiter sline []) < 3 \<Longrightarrow>
     WFuncInfo_load this sline delimiter = (False, this)"
  by (simp add: WFuncInfo_load_def split_list_def Let_def)

lemma loadList_body_few_fields:
  "length (split_loop (CHR '';'') (c_str line) []) < 3 \<Longrightarrow> loadList_body funcs line = funcs"
  by (simp add: loadList_body_def WFuncInfo_load_few_fields)

lemma loadList_body_empty: "loadList_body funcs [] = funcs"
  by (rule loadList_body_few_fields) (simp add: c_str_def split_loop_Nil)

lemma extract_size_t_no_digit:
  "takeWhile isdigit_c (snd (skip_sign (dropWhile isspace_c s))) = [] \<Longrightarrow>
     extract_size_t s = (True, 0)"
  by (cases "skip_sign (dropWhile isspace_c s)") (simp add: extract_size_t_def Let_def)

lemma WFuncInfo_load_no_digit:
  assumes "3 \<le> length (split_loop delimiter sline [])"
    and "takeWhile isdigit_c
           (snd (skip_sign (dropWhile isspace_c (split_loop delimiter sline [] ! 2)))) = []"
  shows "fst (WFuncInfo_load this sline delimiter)
         \<and> paramCount (snd (WFuncInfo_load this sline delimiter)) = 0"
  using assms by (simp add: WFuncInfo_load_def split_list_def Let_def extract_size_t_no_digit)

lemma loadList_unopened: "loadList None funcs = Some (0, funcs)"
  by (simp add: loadList_def)

text \<open>
  When every line of the file is shorter than \<open>MAX_LINE\<close>, the loop ends, and the
  list is the one that the body of the loop builds line by line.
\<close>

lemma loadList_loop_short_lines:
  "\<forall>l \<in> set (split_loop newline cs []). length l < MAX_LINE \<Longrightarrow>
     loadList_loop (ifstream_open cs) funcs
       = Some (foldl loadList_body funcs (split_loop newline cs []))"
proof (induction "length cs" arbitrary: cs funcs rule: less_induct)
  case less
  show ?case
  proof (cases "cs = []")
    case True
    have g: "istream_getline (ifstream_open []) MAX_LINE
               = (\<lparr>content = [], eofbit = True, failbit = True\<rparr>, [])"
      by (simp add: istream_getline_def ifstream_open_def MAX_LINE_def)
    have "loadList_loop (ifstream_open []) funcs
            = loadList_loop \<lparr>content = [], eofbit = True, failbit = True\<rparr> (loadList_body funcs [])"
      by (subst loadList_loop.simps) (simp add: g, simp add: ifstream_open_def)
    also have "\<dots> = Some (loadList_body funcs [])"
      by (subst loadList_loop.simps) simp
    finally show ?thesis
      using True by (simp add: loadList_body_empty split_loop_Nil)
  next
    case False
    let ?body = "takeWhile (\<lambda>c. c \<noteq> newline) cs"
    let ?after = "dropWhile (\<lambda>c. c \<noteq> newline) cs"
    have lines: "split_loop newline cs [] = ?body # split_loop newline (drop 1 ?after) []"
      using False by (rule split_loop_lines)
    with less.prems have short: "length ?body < MAX_LINE"
      and rest: "\<forall>l \<in> set (split_loop newline (drop 1 ?after) []). length l < MAX_LINE"
      by simp_all
    have unfold: "loadList_loop (ifstream_open cs) funcs
        = loadList_loop (fst (istream_getline (ifstream_open cs) MAX_LINE))
            (loadList_body funcs (snd (istream_getline (ifstream_open cs) MAX_LINE)))"
      by (subst loadList_loop.simps) (simp add: ifstream_open_def)
    show ?thesis
    proof (cases ?after)
      case Nil
      have g: "istream_getline (ifstream_open cs) MAX_LINE
                 = (\<lparr>content = [], eofbit = True, failbit = (?body = [])\<rparr>, ?body)"
        using short
        by (simp add: istream_getline_def ifstream_open_def Let_def Nil
            del: dropWhile_eq_Nil_conv)
      have "loadList_loop \<lparr>content = [], eofbit = True, failbit = (?body = [])\<rparr>
              (loadList_body funcs ?body) = Some (loadList_body funcs ?body)"
        by (subst loadList_loop.simps) simp
      with unfold g have "loadList_loop (ifstream_open cs) funcs = Some (loadList_body funcs ?body)"
        by simp
      moreover have "split_loop newline cs [] = [?body]"
        by (simp add: lines Nil split_loop_Nil del: dropWhile_eq_Nil_conv)
      ultimately show ?thesis by simp
    next
      case (Cons x r)
      have g: "istream_getline (ifstream_open cs) MAX_LINE = (ifstream_open r, ?body)"
        using short by (simp add: istream_getline_def ifstream_open_def Let_def Cons)
      from Cons have r: "drop 1 ?after = r" by simp
      have "length ?after \<le> length cs" by (rule length_dropWhile_le)
      with Cons have "length r < length cs" by simp
      from less.hyps[OF this] rest r
      have "loadList_loop (ifstream_open r) (loadList_body funcs ?body)
              = Some (foldl loadList_body (loadList_body funcs ?body) (split_loop newline r []))"
        by simp
      with unfold g lines r show ?thesis by simp
    qed
  qed
qed

lemma loadList_short_lines:
  "\<forall>l \<in> set (split_loop newline cs []). length l < MAX_LINE \<Longrightarrow>
     loadList (Some cs) funcs
       = Some (length (foldl loadList_body funcs (split_loop newline cs [])),
               foldl loadList_body funcs (split_loop newline cs []))"
  by (simp add: loadList_def loadList_loop_short_lines)

subsection \<open>The counter\<close>

lemma impl_setTimer_step:
  "Timer \<noteq> 0 \<Longrightarrow> snd (impl_setTimer Timer ctxt isEax) = Timer + 100"
  by (simp add: impl_setTimer_def Let_def)

lemma impl_setTimer_seed:
  "snd (impl_setTimer 0 ctxt isEax) = push_bit 32 (REG_GDX ctxt) OR REG_GAX ctxt"
  by (simp add: impl_setTimer_def Let_def)

lemma rdtsc_after_step:
  "Timer \<noteq> 0 \<Longrightarrow> Timer + 100 \<noteq> 0 \<Longrightarrow> snd (rdtsc_after Timer ctxt) = Timer + 200"
  by (simp add: rdtsc_after_def AlterRdtscValueEdx_def AlterRdtscValueEax_def impl_setTimer_def
      Let_def split: prod.splits)

section \<open>Claims\<close>

text \<open>
  C1. An edge from an address inside the traced module to an address outside it that lies
  in a known module image adds exactly one record to the log: the call record with the
  offset of the origin in the traced module, the name of the target module and the symbol
  at the target. It is the record of a call from the traced module to a module: base 0
  and an origin marked as an offset, not a page of shellcode. No section record is added.
\<close>

theorem C1_call_out_to_known_module:
  assumes "isMyAddress env addrFrom" and "\<not> isMyAddress env addrTo"
    and "IMG_FindByAddress env addrTo = Some img"
  shows "traceLog (SaveTransitions env addrFrom addrTo s) =
           traceLog s @ [LogCall 0 (addr_to_rva env addrFrom) True (moduleName img)
                           (get_func_at env addrTo)]
         \<and> emitted s (SaveTransitions env addrFrom addrTo s) =
             [LogCall 0 (addr_to_rva env addrFrom) True (moduleName img)
                (get_func_at env addrTo)]
         \<and> (\<exists>m. tracedModule env = Some m \<and> addr_to_rva env addrFrom = addrFrom - base m)"
  using assms isMyAddress_IMG_Valid[of env addrFrom] isMyAddress_rva[of env addrFrom]
  by (simp add: SaveTransitions_def impl_SaveTransitions_def section_transition_def
      calls_from_shellcode_def transition_to_foreign_def log_append_def emitted_def)

text \<open>
  C1, at the example: the edge from \<open>0x400500\<close> to \<open>0x70001000\<close>.
\<close>

theorem C1_call_out_to_known_module_witness:
  "isMyAddress example_env 0x400500 \<and> \<not> isMyAddress example_env 0x70001000
   \<and> IMG_FindByAddress example_env 0x70001000 = Some (example_modules ! 1)
   \<and> emitted example_state (SaveTransitions example_env 0x400500 0x70001000 example_state) =
       [LogCall 0 0x500 True ''kernel32.dll'' ''CreateFileW'']"
  using C1_call_out_to_known_module[of example_env "0x400500" "0x70001000" "example_modules ! 1"
      example_state]
  by (simp add: example_defs)

text \<open>
  C2. An edge whose target is inside the traced module, at an offset whose section differs
  from the section of the cursor, adds exactly one section-change record, the last record
  of the edge. When the origin is inside the traced module too, the only other record is
  the section-entry record (offset of the origin, name of its section, name of the new
  section), placed before it. When the origin is not, the records before the
  section-change record are no section records. A section that is not known has the name
  \<open>?\<close>.
\<close>

theorem C2_section_change:
  assumes "isMyAddress env addrTo"
    and "getSecByAddr env (addr_to_rva env addrTo)
           \<noteq> getSecByAddr env (lastKnownSectionOffset s)"
  shows "(\<exists>pre.
           traceLog (SaveTransitions env addrFrom addrTo s) =
             traceLog s @ pre @
             (if isMyAddress env addrFrom
              then [LogNewSectionCalled (addr_to_rva env addrFrom)
                      (section_name (getSecByAddr env (addr_to_rva env addrFrom)))
                      (section_name (getSecByAddr env (addr_to_rva env addrTo)))]
              else []) @
             [LogSectionChange (addr_to_rva env addrTo)
                (section_name (getSecByAddr env (addr_to_rva env addrTo)))]
           \<and> (isMyAddress env addrFrom \<longrightarrow> pre = [])
           \<and> (\<forall>r \<in> set pre. \<not> is_section_change r \<and> \<not> is_section_entry r))
         \<and> filter is_section_change (emitted s (SaveTransitions env addrFrom addrTo s)) =
             [LogSectionChange (addr_to_rva env addrTo)
                (section_name (getSecByAddr env (addr_to_rva env addrTo)))]
         \<and> filter is_section_entry (emitted s (SaveTransitions env addrFrom addrTo s)) =
             (if isMyAddress env addrFrom
              then [LogNewSectionCalled (addr_to_rva env addrFrom)
                      (section_name (getSecByAddr env (addr_to_rva env addrFrom)))
                      (section_name (getSecByAddr env (addr_to_rva env addrTo)))]
              else [])
         \<and> section_name None = ''?''"
proof (intro conjI)
  let ?m = "calls_from_shellcode env addrFrom addrTo s"
  let ?E = "if isMyAddress env addrFrom
            then [LogNewSectionCalled (addr_to_rva env addrFrom)
                    (section_name (getSecByAddr env (addr_to_rva env addrFrom)))
                    (section_name (getSecByAddr env (addr_to_rva env addrTo)))]
            else []"
  let ?C = "LogSectionChange (addr_to_rva env addrTo)
              (section_name (getSecByAddr env (addr_to_rva env addrTo)))"
  have step: "SaveTransitions env addrFrom addrTo s = section_transition env addrFrom addrTo ?m"
    using assms(1)
    by (simp add: SaveTransitions_def impl_SaveTransitions_def transition_to_foreign_no_leave)
  obtain pre where pre: "traceLog ?m = traceLog s @ pre"
    "\<forall>r \<in> set pre. \<not> is_section_change r \<and> \<not> is_section_entry r"
    "lastKnownSectionOffset ?m = lastKnownSectionOffset s"
    using calls_from_shellcode_log[of env addrFrom addrTo s] by blast
  from assms(2) pre(3) have cross: "getSecByAddr env (addr_to_rva env addrTo)
      \<noteq> getSecByAddr env (lastKnownSectionOffset ?m)" by simp
  have log: "traceLog (SaveTransitions env addrFrom addrTo s) = traceLog s @ pre @ ?E @ [?C]"
    using section_transition_crossing(1)[OF assms(1) cross, of addrFrom]
    by (simp add: step pre(1))
  have empty: "isMyAddress env addrFrom \<longrightarrow> pre = []"
    using pre(1) by (auto simp: calls_from_shellcode_traced_caller)
  from log empty pre(2) show "\<exists>pre.
           traceLog (SaveTransitions env addrFrom addrTo s) = traceLog s @ pre @ ?E @ [?C]
           \<and> (isMyAddress env addrFrom \<longrightarrow> pre = [])
           \<and> (\<forall>r \<in> set pre. \<not> is_section_change r \<and> \<not> is_section_entry r)"
    by blast
  have em: "emitted s (SaveTransitions env addrFrom addrTo s) = pre @ ?E @ [?C]"
    by (simp add: emitted_def log)
  have f1: "filter is_section_change pre = []" and f2: "filter is_section_entry pre = []"
    using pre(2) by (simp_all add: filter_empty_conv)
  show "filter is_section_change (emitted s (SaveTransitions env addrFrom addrTo s)) = [?C]"
    by (simp add: em f1)
  show "filter is_section_entry (emitted s (SaveTransitions env addrFrom addrTo s)) = ?E"
    by (simp add: em f2)
  show "section_name None = ''?''"
    by (simp add: section_name_def)
qed

text \<open>
  C2, at the example: the edge from \<open>0x400500\<close> in \<open>.text\<close> to \<open>0x401200\<close>
  in \<open>.data\<close>.
\<close>

theorem C2_section_change_witness:
  "isMyAddress example_env 0x401200
   \<and> getSecByAddr example_env (addr_to_rva example_env 0x401200)
       \<noteq> getSecByAddr example_env (lastKnownSectionOffset example_state)
   \<and> isMyAddress example_env 0x400500
   \<and> traceLog (SaveTransitions example_env 0x400500 0x401200 example_state) =
       [LogNewSectionCalled 0x500 ''.text'' ''.data'', LogSectionChange 0x1200 ''.data'']"
  using C2_section_change[of example_env "0x401200" example_state "0x400500"]
  by (simp add: example_defs section_name_def)

text \<open>
  C3. \<^verbatim>\<open>lastShellc\<close> starts as \<^verbatim>\<open>UNKNOWN_ADDR\<close>. An edge changes it only when it is an
  assigning event: an edge of case A to an address in no module, or a recursive hop of
  case B from the page followed at that time; it then becomes the page of the target. So
  in a run from the initial state it is \<^verbatim>\<open>UNKNOWN_ADDR\<close> as long as no edge was an
  assigning event, and in every state it is \<^verbatim>\<open>UNKNOWN_ADDR\<close> or the page of the target
  of an earlier assigning event. The state holds one address, never several.
\<close>

theorem C3_lastShellc_invariant:
  "lastShellc (initial_state c) = UNKNOWN_ADDR
   \<and> lastShellc (SaveTransitions env addrFrom addrTo s) =
       (if caseA_unmapped env addrFrom addrTo
           \<or> caseB_recursive_hop env addrFrom addrTo (lastShellc s)
        then GetPageOfAddr env addrTo else lastShellc s)
   \<and> ((\<forall>i<length es. \<not> assigns (run_edges (initial_state c) (take i es)) (es ! i)) \<longrightarrow>
      lastShellc (run_edges (initial_state c) es) = UNKNOWN_ADDR)
   \<and> (lastShellc (run_edges (initial_state c) es) = UNKNOWN_ADDR
       \<or> (\<exists>i<length es. assigns (run_edges (initial_state c) (take i es)) (es ! i)
            \<and> lastShellc (run_edges (initial_state c) es) = assigned_page (es ! i)))"
  using lastShellc_run[of es c] lastShellc_step[of env addrFrom addrTo s]
  by (simp add: initial_state_def)

text \<open>
  C3, at the example: an edge into a known module assigns nothing; an edge from the traced
  module to \<open>0x20000123\<close> and a hop from there to \<open>0x30000456\<close> assign the pages.
\<close>

theorem C3_lastShellc_invariant_witness:
  "\<not> assigns (initial_state 0) (example_env, 0x400500, 0x70001000)
   \<and> lastShellc (run_edges (initial_state 0) [(example_env, 0x400500, 0x70001000)]) = UNKNOWN_ADDR
   \<and> assigns (initial_state 0) (example_env_recursive, 0x400500, 0x20000123)
   \<and> assigns (run_edges (initial_state 0) [(example_env_recursive, 0x400500, 0x20000123)])
        (example_env_recursive, 0x20000123, 0x30000456)
   \<and> lastShellc (run_edges (initial_state 0)
        [(example_env_recursive, 0x400500, 0x20000123),
         (example_env_recursive, 0x20000123, 0x30000456)]) = 0x30000000"
proof -
  have na: "\<not> assigns (initial_state 0) (example_env, 0x400500, 0x70001000)"
    by (simp add: assigns_def caseA_unmapped_def caseB_recursive_hop_def example_defs
        SHELLC_FOLLOW_FIRST_def SHELLC_FOLLOW_RECURSIVE_def)
  then have h: "\<forall>i<length [(example_env, 0x400500, 0x70001000)].
      \<not> assigns (run_edges (initial_state 0) (take i [(example_env, 0x400500, 0x70001000)]))
           ([(example_env, 0x400500, 0x70001000)] ! i)"
    by (simp add: run_edges_def)
  have u: "lastShellc (run_edges (initial_state 0) [(example_env, 0x400500, 0x70001000)])
             = UNKNOWN_ADDR"
    using C3_lastShellc_invariant[where es = "[(example_env, 0x400500, 0x70001000)]" and c = 0] h
    by blast
  have a1: "assigns (initial_state 0) (example_env_recursive, 0x400500, 0x20000123)"
    by (simp add: assigns_def caseA_unmapped_def example_env_recursive_def example_defs)
  have l1: "lastShellc (run_edges (initial_state 0) [(example_env_recursive, 0x400500, 0x20000123)])
              = 0x20000000"
    using a1 by (simp add: run_edges_def lastShellc_process_edge assigned_page_def
        example_env_recursive_def example_env_def)
  have a2: "assigns (run_edges (initial_state 0) [(example_env_recursive, 0x400500, 0x20000123)])
        (example_env_recursive, 0x20000123, 0x30000456)"
    using l1
    by (simp add: assigns_def caseB_recursive_hop_def example_env_recursive_def example_defs
        UNKNOWN_ADDR_def)
  have l2: "lastShellc (run_edges (initial_state 0)
        [(example_env_recursive, 0x400500, 0x20000123),
         (example_env_recursive, 0x20000123, 0x30000456)]) = 0x30000000"
    using a2 run_edges_snoc[of "initial_state 0" "[(example_env_recursive, 0x400500, 0x20000123)]"
        "(example_env_recursive, 0x20000123, 0x30000456)"]
    by (simp add: lastShellc_process_edge assigned_page_def example_env_recursive_def
        example_env_def)
  from na u a1 a2 l2 show ?thesis by blast
qed

text \<open>
  C4. Handling the same edge twice in a row: when the origin is inside the traced module
  and the target is not, each of the two rounds adds the same single call record; when the
  target is inside the traced module and crosses a section boundary, the first round adds
  one section-change record and the second adds none.
\<close>

theorem C4_replay:
  "(isMyAddress env addrFrom \<and> \<not> isMyAddress env addrTo \<longrightarrow>
      (\<exists>c. is_call_record c
           \<and> emitted s (SaveTransitions env addrFrom addrTo s) = [c]
           \<and> emitted (SaveTransitions env addrFrom addrTo s)
                (SaveTransitions env addrFrom addrTo (SaveTransitions env addrFrom addrTo s)) = [c]))
   \<and> (isMyAddress env addrTo
        \<and> getSecByAddr env (addr_to_rva env addrTo)
            \<noteq> getSecByAddr env (lastKnownSectionOffset s) \<longrightarrow>
      filter is_section_change (emitted s (SaveTransitions env addrFrom addrTo s)) =
        [LogSectionChange (addr_to_rva env addrTo)
           (section_name (getSecByAddr env (addr_to_rva env addrTo)))]
      \<and> filter is_section_change
          (emitted (SaveTransitions env addrFrom addrTo s)
             (SaveTransitions env addrFrom addrTo (SaveTransitions env addrFrom addrTo s))) = [])"
proof (intro conjI impI)
  assume h: "isMyAddress env addrFrom \<and> \<not> isMyAddress env addrTo"
  then obtain c where c: "is_call_record c"
    and log: "\<And>t. traceLog (transition_to_foreign env addrFrom addrTo t) = traceLog t @ [c]"
    using transition_to_foreign_leave[of env addrFrom addrTo] by blast
  from h have step: "\<And>t. SaveTransitions env addrFrom addrTo t = transition_to_foreign env addrFrom addrTo t"
    by (simp add: SaveTransitions_def impl_SaveTransitions_def calls_from_shellcode_traced_caller
        section_transition_foreign_target)
  have "\<And>t. emitted t (SaveTransitions env addrFrom addrTo t) = [c]"
    by (simp add: step log emitted_def)
  with c show "\<exists>c. is_call_record c
           \<and> emitted s (SaveTransitions env addrFrom addrTo s) = [c]
           \<and> emitted (SaveTransitions env addrFrom addrTo s)
                (SaveTransitions env addrFrom addrTo (SaveTransitions env addrFrom addrTo s)) = [c]"
    by blast
next
  assume h: "isMyAddress env addrTo
        \<and> getSecByAddr env (addr_to_rva env addrTo)
            \<noteq> getSecByAddr env (lastKnownSectionOffset s)"
  have step: "\<And>t. SaveTransitions env addrFrom addrTo t =
      section_transition env addrFrom addrTo (calls_from_shellcode env addrFrom addrTo t)"
    using h by (simp add: SaveTransitions_def impl_SaveTransitions_def transition_to_foreign_no_leave)
  let ?s1 = "SaveTransitions env addrFrom addrTo s"
  let ?m = "calls_from_shellcode env addrFrom addrTo s"
  obtain pre where pre: "traceLog ?m = traceLog s @ pre"
    "\<forall>r \<in> set pre. \<not> is_section_change r \<and> \<not> is_section_entry r"
    "lastKnownSectionOffset ?m = lastKnownSectionOffset s"
    using calls_from_shellcode_log[of env addrFrom addrTo s] by blast
  from h pre(3) have cross: "getSecByAddr env (addr_to_rva env addrTo)
      \<noteq> getSecByAddr env (lastKnownSectionOffset ?m)" by simp
  from h have my: "isMyAddress env addrTo" by simp
  have nf: "filter is_section_change pre = []"
    using pre(2) by (simp add: filter_empty_conv)
  show "filter is_section_change (emitted s ?s1) =
        [LogSectionChange (addr_to_rva env addrTo)
           (section_name (getSecByAddr env (addr_to_rva env addrTo)))]"
    using section_transition_crossing(1)[OF my cross, of addrFrom] nf
    by (simp add: step emitted_def pre(1))
  have cur: "lastKnownSectionOffset ?s1 = addr_to_rva env addrTo"
    using section_transition_crossing(2)[OF my cross, of addrFrom] by (simp add: step)
  let ?m2 = "calls_from_shellcode env addrFrom addrTo ?s1"
  obtain pre2 where pre2: "traceLog ?m2 = traceLog ?s1 @ pre2"
    "\<forall>r \<in> set pre2. \<not> is_section_change r \<and> \<not> is_section_entry r"
    "lastKnownSectionOffset ?m2 = lastKnownSectionOffset ?s1"
    using calls_from_shellcode_log[of env addrFrom addrTo ?s1] by blast
  have "section_transition env addrFrom addrTo ?m2 = ?m2"
    by (rule section_transition_same_section) (simp add: pre2(3) cur)
  then have "SaveTransitions env addrFrom addrTo ?s1 = ?m2"
    by (simp add: step)
  then show "filter is_section_change (emitted ?s1 (SaveTransitions env addrFrom addrTo ?s1)) = []"
    using pre2(1,2) by (simp add: emitted_def filter_empty_conv)
qed

text \<open>
  C4, at the example: the edge to \<open>0x70001000\<close> and the edge to \<open>0x401200\<close>, each
  handled twice.
\<close>

theorem C4_replay_witness:
  "isMyAddress example_env 0x400500 \<and> \<not> isMyAddress example_env 0x70001000
   \<and> (\<exists>c. is_call_record c
        \<and> emitted example_state (SaveTransitions example_env 0x400500 0x70001000 example_state) = [c]
        \<and> emitted (SaveTransitions example_env 0x400500 0x70001000 example_state)
             (SaveTransitions example_env 0x400500 0x70001000
                (SaveTransitions example_env 0x400500 0x70001000 example_state)) = [c])
   \<and> isMyAddress example_env 0x401200
   \<and> getSecByAddr example_env (addr_to_rva example_env 0x401200)
       \<noteq> getSecByAddr example_env (lastKnownSectionOffset example_state)
   \<and> filter is_section_change
        (emitted example_state (SaveTransitions example_env 0x400500 0x401200 example_state))
       = [LogSectionChange 0x1200 ''.data'']
   \<and> filter is_section_change
        (emitted (SaveTransitions example_env 0x400500 0x401200 example_state)
           (SaveTransitions example_env 0x400500 0x401200
              (SaveTransitions example_env 0x400500 0x401200 example_state))) = []"
  using C4_replay[of example_env "0x400500" "0x70001000" example_state]
    C4_replay[of example_env "0x400500" "0x401200" example_state]
  by (simp add: example_defs section_name_def)

text \<open>
  C5, counterexample. With following on and no page followed yet, a call from
  \<open>0x20000123\<close>, an address in no module, is not eligible for the first two blocks of
  \<^verbatim>\<open>_SaveTransitions\<close>, and yet its arguments are dumped.
\<close>

theorem C5_probe_guard_counterexample:
  "m_FollowShellcode example_env = SHELLC_FOLLOW_FIRST
   \<and> lastShellc example_state = UNKNOWN_ADDR
   \<and> \<not> classifier_eligible example_env example_state 0x20000123
   \<and> emitted example_state
        (LogFunctionArgs example_env example_memory 0x20000123 ''CreateFileW'' 3 example_args
           example_state) \<noteq> []"
  by (simp add: example_defs classifier_eligible_def SHELLC_FOLLOW_FIRST_def UNKNOWN_ADDR_def
      LogFunctionArgs_def impl_LogFunctionArgs_def isWatchedAddress_def emitted_def log_append_def)

text \<open>
  C5, as the code has it. The arguments of a probed call are dumped, in one line record,
  if and only if the call site is inside the traced module, or following is on and the
  call site lies in no known module and has a known page, whichever page is followed.
  Every call site that is eligible for the first two blocks of \<^verbatim>\<open>_SaveTransitions\<close>
  passes this guard.
\<close>

theorem C5_probe_guard:
  "(emitted s (LogFunctionArgs env mem Address fname argCount args s) \<noteq> []
      \<longleftrightarrow> isMyAddress env Address
          \<or> (m_FollowShellcode env \<noteq> 0 \<and> IMG_FindByAddress env Address = None
             \<and> GetPageOfAddr env Address \<noteq> UNKNOWN_ADDR))
   \<and> (emitted s (LogFunctionArgs env mem Address fname argCount args s) \<noteq> []
      \<longrightarrow> (\<exists>line. emitted s (LogFunctionArgs env mem Address fname argCount args s) = [LogLine line]))
   \<and> (classifier_eligible env s Address
      \<longrightarrow> emitted s (LogFunctionArgs env mem Address fname argCount args s) \<noteq> [])"
  by (auto simp: LogFunctionArgs_def impl_LogFunctionArgs_def isWatchedAddress_def emitted_def
      log_append_def classifier_eligible_def)

text \<open>
  C5, at the example: a call from the traced module is dumped, a call from another module
  is not.
\<close>

theorem C5_probe_guard_witness:
  "isMyAddress example_env 0x400500
   \<and> classifier_eligible example_env example_state 0x400500
   \<and> emitted example_state
        (LogFunctionArgs example_env example_memory 0x400500 ''CreateFileW'' 3 example_args
           example_state) \<noteq> []
   \<and> \<not> isMyAddress example_env 0x70001000
   \<and> IMG_FindByAddress example_env 0x70001000 \<noteq> None
   \<and> emitted example_state
        (LogFunctionArgs example_env example_memory 0x70001000 ''CreateFileW'' 3 example_args
           example_state) = []"
  using C5_probe_guard[of example_state example_env example_memory "0x400500" "''CreateFileW''" 3
      example_args]
    C5_probe_guard[of example_state example_env example_memory "0x70001000" "''CreateFileW''" 3
      example_args]
  by (simp add: example_defs classifier_eligible_def)

text \<open>
  C6. The code at two reads in a row: the first \<^verbatim>\<open>rdtsc\<close>, with \<open>0\<close> and \<open>1000\<close> in
  the registers, leaves the counter at \<open>1100\<close>; the second leaves it at \<open>1300\<close>, which
  is \<open>200\<close> more and not \<open>100\<close>, since each read calls \<^verbatim>\<open>_setTimer\<close> twice. The two
  halves come from different values of the counter: from \<open>0xFFFFFF38\<close> the read
  delivers \<open>0\<close> in both registers.
\<close>

theorem C6_rdtsc_reads_differ_by_200:
  "rdtsc_after 0 \<lparr>REG_GDX = 0, REG_GAX = 1000\<rparr> = (\<lparr>REG_GDX = 0, REG_GAX = 1100\<rparr>, 1100)
   \<and> rdtsc_after 1100 \<lparr>REG_GDX = 0, REG_GAX = 5000\<rparr> = (\<lparr>REG_GDX = 0, REG_GAX = 1300\<rparr>, 1300)
   \<and> rdtsc_after 0xFFFFFF38 \<lparr>REG_GDX = 0, REG_GAX = 0\<rparr>
       = (\<lparr>REG_GDX = 0, REG_GAX = 0\<rparr>, 0x100000000)"
  by (simp add: rdtsc_after_def AlterRdtscValueEdx_def AlterRdtscValueEax_def impl_setTimer_def
      Let_def)

text \<open>
  C7. \<^verbatim>\<open>paramToStr\<close> gives the one character \<open>0\<close> for the null value; for a value that
  is not null and cannot be read, the bare hexadecimal number, with no marker and no
  quotation mark; for a readable address whose leading run of printable bytes is longer
  than 1, the bytes up to the first NUL between two quotation marks (character 0x22); for
  a readable address with a run of length 1 and a run of printable 16-bit units at least
  as long, the letter L (0x4C), a quotation mark, the 16-bit units up to the first NUL and
  a quotation mark; for a readable address with a run of length 0, the marker
  \<open>ptr\<close>, a space and the hexadecimal number. The text is given character by character.
\<close>

theorem C7_paramToStr_classes:
  "paramToStr mem 0 = [0x30]
   \<and> (arg1 \<noteq> 0 \<and> \<not> PIN_CheckReadAccess mem arg1 \<longrightarrow>
      paramToStr mem arg1 = map of_char (''0x'' @ radix_digits 16 (unat arg1)))
   \<and> (arg1 \<noteq> 0 \<and> PIN_CheckReadAccess mem arg1
        \<and> getAsciiLen (bytes_at mem arg1) kMaxStr > 1 \<longrightarrow>
      paramToStr mem arg1 =
        [0x22] @ map ucast (takeWhile (\<lambda>b. b \<noteq> 0) (bytes_at mem arg1)) @ [0x22])
   \<and> (arg1 \<noteq> 0 \<and> PIN_CheckReadAccess mem arg1
        \<and> getAsciiLen (bytes_at mem arg1) kMaxStr = 1
        \<and> getAsciiLenW (as_wchars (bytes_at mem arg1)) kMaxStr
             \<ge> getAsciiLen (bytes_at mem arg1) kMaxStr \<longrightarrow>
      paramToStr mem arg1 =
        [0x4C, 0x22] @ takeWhile (\<lambda>w. w \<noteq> 0) (as_wchars (bytes_at mem arg1)) @ [0x22])
   \<and> (arg1 \<noteq> 0 \<and> PIN_CheckReadAccess mem arg1
        \<and> getAsciiLen (bytes_at mem arg1) kMaxStr = 0 \<longrightarrow>
      paramToStr mem arg1 = map of_char (''ptr 0x'' @ radix_digits 16 (unat arg1)))"
  by (simp add: paramToStr_def Let_def widen_def quote_def hex_ptr_def print_cstr_def
      print_wcstr_def)

text \<open>
  C7, at the example, with every character of the result written out: null; the
  unreadable \<open>0xDEAD0000\<close>; the eight bytes of a path followed by a NUL, which come back
  between two characters 0x22; the bytes \<open>61 00 62 00\<close>, which come back as L, 0x22,
  a, b, 0x22; and four unprintable bytes.
\<close>

theorem C7_paramToStr_classes_witness:
  "paramToStr example_memory 0 = [0x30]
   \<and> \<not> PIN_CheckReadAccess example_memory 0xDEAD0000
   \<and> paramToStr example_memory 0xDEAD0000
       = [0x30, 0x78, 0x64, 0x65, 0x61, 0x64, 0x30, 0x30, 0x30, 0x30]
   \<and> PIN_CheckReadAccess example_memory 0x5000
   \<and> bytes_at example_memory 0x5000 = [0x43, 0x3A, 0x5C, 0x61, 0x2E, 0x74, 0x78, 0x74, 0]
   \<and> getAsciiLen (bytes_at example_memory 0x5000) kMaxStr = 8
   \<and> paramToStr example_memory 0x5000
       = [0x22, 0x43, 0x3A, 0x5C, 0x61, 0x2E, 0x74, 0x78, 0x74, 0x22]
   \<and> PIN_CheckReadAccess example_memory 0x6000
   \<and> bytes_at example_memory 0x6000 = [0x61, 0, 0x62, 0, 0, 0]
   \<and> getAsciiLen (bytes_at example_memory 0x6000) kMaxStr = 1
   \<and> getAsciiLenW (as_wchars (bytes_at example_memory 0x6000)) kMaxStr = 2
   \<and> paramToStr example_memory 0x6000 = [0x4C, 0x22, 0x61, 0x62, 0x22]
   \<and> PIN_CheckReadAccess example_memory 0x7000
   \<and> getAsciiLen (bytes_at example_memory 0x7000) kMaxStr = 0
   \<and> paramToStr example_memory 0x7000
       = [0x70, 0x74, 0x72, 0x20, 0x30, 0x78, 0x37, 0x30, 0x30, 0x30]"
  using C7_paramToStr_classes[of example_memory "0xDEAD0000"]
    C7_paramToStr_classes[of example_memory "0x5000"]
    C7_paramToStr_classes[of example_memory "0x6000"]
    C7_paramToStr_classes[of example_memory "0x7000"]
  by (simp add: example_memory_def getAsciiLen_def getAsciiLenW_def isPrintable_def kMaxStr_def
      radix_digits.simps)



text \<open>
  C9. The code at a file whose first line has 300 characters and no semicolon, fewer than
  three fields, followed by a valid line: \<^verbatim>\<open>getline\<close> sets the fail bit and never the
  end-of-file bit, so the loop of \<^verbatim>\<open>loadList\<close> never ends and the valid line is never
  loaded. Without the long line, or with a short line in its place, the valid line is
  loaded.
\<close>

theorem C9_long_line_never_returns:
  "length (split_loop (CHR '';'') (replicate 300 (CHR ''a'')) []) < 3
   \<and> loadList (Some (replicate 300 (CHR ''a'') @ newline # ''k32.dll;CreateFileW;3'' @ [newline])) []
       = None
   \<and> loadList (Some (''k32.dll;CreateFileW;3'' @ [newline])) []
       = Some (1, [\<lparr>dllName = ''k32.dll'', funcName = ''CreateFileW'', paramCount = 3\<rparr>])
   \<and> loadList (Some (''short line'' @ newline # ''k32.dll;CreateFileW;3'' @ [newline])) []
       = Some (1, [\<lparr>dllName = ''k32.dll'', funcName = ''CreateFileW'', paramCount = 3\<rparr>])"
proof (intro conjI)
  have "takeWhile (\<lambda>c. c \<noteq> CHR '';'') (replicate 300 (CHR ''a'')) = replicate 300 (CHR ''a'')"
    by (simp add: takeWhile_eq_all_conv)
  moreover have "dropWhile (\<lambda>c. c \<noteq> CHR '';'') (replicate 300 (CHR ''a'')) = []"
    by simp
  ultimately have "split_loop (CHR '';'') (replicate 300 (CHR ''a'')) [] = [replicate 300 (CHR ''a'')]"
    by (simp add: split_loop.simps[of _ "replicate 300 (CHR ''a'')"] split_loop.simps[of _ "[]"]
        getline_str_def)
  then show "length (split_loop (CHR '';'') (replicate 300 (CHR ''a'')) []) < 3"
    by simp
  show "loadList (Some (replicate 300 (CHR ''a'') @ newline # ''k32.dll;CreateFileW;3'' @ [newline])) []
       = None"
    by (rule loadList_long_first_line) (simp_all add: newline_def MAX_LINE_def)
  show "loadList (Some (''k32.dll;CreateFileW;3'' @ [newline])) []
       = Some (1, [\<lparr>dllName = ''k32.dll'', funcName = ''CreateFileW'', paramCount = 3\<rparr>])"
    by (simp add: watch_defs)
  show "loadList (Some (''short line'' @ newline # ''k32.dll;CreateFileW;3'' @ [newline])) []
       = Some (1, [\<lparr>dllName = ''k32.dll'', funcName = ''CreateFileW'', paramCount = 3\<rparr>])"
    by (simp add: watch_defs)
qed

text \<open>
  C10. Every configuration value greater than or equal to \<^verbatim>\<open>SHELLC_OPTIONS_COUNT\<close> (3) is
  converted to \<^verbatim>\<open>SHELLC_FOLLOW_RECURSIVE\<close>, and the values 0, 1 and 2 are converted to the
  mode of the same number: an out-of-range flag enables recursive following, it is not
  rejected.
\<close>

theorem C10_ConvertShcOption_clamps:
  "SHELLC_OPTIONS_COUNT = 3 \<and>
   (\<forall>v. v \<ge> SHELLC_OPTIONS_COUNT \<longrightarrow> ConvertShcOption v = SHELLC_FOLLOW_RECURSIVE) \<and>
   ConvertShcOption 0 = SHELLC_DO_NOT_FOLLOW \<and>
   ConvertShcOption 1 = SHELLC_FOLLOW_FIRST \<and>
   ConvertShcOption 2 = SHELLC_FOLLOW_RECURSIVE"
  by (simp add: ConvertShcOption_def SHELLC_OPTIONS_COUNT_def SHELLC_DO_NOT_FOLLOW_def
      SHELLC_FOLLOW_FIRST_def SHELLC_FOLLOW_RECURSIVE_def)

text \<open>
  C10, at the example: the value 7.
\<close>

theorem C10_ConvertShcOption_clamps_witness:
  "(7::int) \<ge> SHELLC_OPTIONS_COUNT \<and> ConvertShcOption 7 = SHELLC_FOLLOW_RECURSIVE"
  using C10_ConvertShcOption_clamps by (simp add: SHELLC_OPTIONS_COUNT_def)

end
